theory Spec2Isabelle
  imports Main "HOL-Library.Word"
begin

unbundle bit_operations_syntax

section \<open>The PUP firmware installer (scripts/install\_ps4\_firmware.py)\<close>

text \<open>
  The script reads a \<open>PS4UPDATE.PUP\<close> container, decodes its header and entry table
  with \<open>struct.unpack\<close>, slices each entry's payload out of an \<open>io.BytesIO\<close> over the
  file contents, inflates the payloads whose compression flag is set, and writes one
  file per entry into an output directory.

  Python's integers are unbounded; every integer of this script comes out of
  \<open>struct.unpack\<close> with an unsigned format code, so it is a \<open>nat\<close> here.
  A \<open>bytes\<close> object is a list of 8-bit words.
\<close>

subsection \<open>Exceptions\<close>

type_synonym byte = "8 word"
type_synonym bytes = "byte list"

text \<open>
  The exceptions the script can raise, as values.
  \<^item> \<open>struct_error n\<close>: \<open>struct.error\<close>, "unpack requires a buffer of n bytes"
    (raised by \<open>struct.unpack\<close> at lines 100-102 and 107);
  \<^item> \<open>RuntimeError msg\<close>: the \<open>raise RuntimeError('Invalid PUP file')\<close> of line 104;
  \<^item> \<open>zlib_error msg\<close>: \<open>zlib.error\<close>, raised inside \<open>decompress\<close> or
    \<open>flush\<close> (lines 84-85);
  \<^item> \<open>OverflowError\<close>: raised by \<open>io.BytesIO.seek\<close> and \<open>io.BytesIO.read\<close> when the
    argument does not fit the interpreter's \<open>Py_ssize_t\<close> (lines 110-111);
  \<^item> \<open>ValueError\<close> and \<open>TypeError\<close>: a tuple of the wrong length at the tuple
    assignment of lines 100-102 and at the call \<open>PUPEntry(*...)\<close> of line 107.
\<close>

datatype error =
    struct_error nat
  | RuntimeError string
  | zlib_error string
  | OverflowError
  | ValueError
  | TypeError

subsection \<open>The struct module, for the two formats of the script\<close>

text \<open>
  Both formats start with \<open><\<close>: little-endian, standard sizes, no alignment.
  The format codes in use are \<open>B\<close> (1 byte), \<open>H\<close> (2), \<open>I\<close> (4) and \<open>Q\<close> (8), all unsigned.
\<close>

definition PUP_HEADER_FORMAT :: string where
  "PUP_HEADER_FORMAT = ''<IBBBBBBHHHIIHHI''"

definition PUP_ENTRY_FORMAT :: string where
  "PUP_ENTRY_FORMAT = ''<QQQQ''"

definition code_size :: "char \<Rightarrow> nat" where
  "code_size c =
     (if c = CHR ''B'' then 1
      else if c = CHR ''H'' then 2
      else if c = CHR ''I'' then 4
      else if c = CHR ''Q'' then 8
      else 0)"

definition field_sizes :: "string \<Rightarrow> nat list" where
  "field_sizes fmt = map code_size (tl fmt)"

definition calcsize :: "string \<Rightarrow> nat" where
  "calcsize fmt = sum_list (field_sizes fmt)"

text \<open>An unsigned integer from its little-endian bytes (\<open>int.from_bytes(bs, 'little')\<close>).\<close>

fun le_uint :: "bytes \<Rightarrow> nat" where
  "le_uint [] = 0"
| "le_uint (b # bs) = unat b + 256 * le_uint bs"

text \<open>The inverse, \<open>n.to_bytes(k, 'little')\<close>, to write containers down.\<close>

fun le_bytes :: "nat \<Rightarrow> nat \<Rightarrow> bytes" where
  "le_bytes 0 n = []"
| "le_bytes (Suc k) n = of_nat (n mod 256) # le_bytes k (n div 256)"

fun unpack_fields :: "nat list \<Rightarrow> bytes \<Rightarrow> nat list" where
  "unpack_fields [] bs = []"
| "unpack_fields (n # ns) bs = le_uint (take n bs) # unpack_fields ns (drop n bs)"

text \<open>\<open>struct.unpack(fmt, buffer)\<close>: the buffer must have exactly \<open>calcsize(fmt)\<close> bytes.\<close>

definition unpack :: "string \<Rightarrow> bytes \<Rightarrow> error + nat list" where
  "unpack fmt buffer =
     (if length buffer \<noteq> calcsize fmt then Inl (struct_error (calcsize fmt))
      else Inr (unpack_fields (field_sizes fmt) buffer))"

subsection \<open>io.BytesIO\<close>

text \<open>
  A \<open>BytesIO\<close> is its buffer and its position. \<open>read(size)\<close> returns the bytes from the
  position on, at most \<open>size\<close> of them and fewer (possibly none) at the end of the
  buffer, and advances the position by what it returned. \<open>seek(pos)\<close> sets the position,
  also beyond the end of the buffer. Both convert their argument to a \<open>Py_ssize_t\<close>
  and raise \<open>OverflowError\<close> when it does not fit; \<open>PY_SSIZE_T_MAX\<close> is
  \<open>sys.maxsize\<close> of a 64-bit interpreter.
\<close>

record BytesIO =
  buf :: bytes
  pos :: nat

definition PY_SSIZE_T_MAX :: nat where
  "PY_SSIZE_T_MAX = 2 ^ 63 - 1"

definition BytesIO_init :: "bytes \<Rightarrow> BytesIO" where
  "BytesIO_init initial_bytes = \<lparr>buf = initial_bytes, pos = 0\<rparr>"

definition read :: "nat \<Rightarrow> BytesIO \<Rightarrow> error + (bytes \<times> BytesIO)" where
  "read n s =
     (if n > PY_SSIZE_T_MAX then Inl OverflowError
      else let out = take n (drop (pos s) (buf s))
           in Inr (out, s\<lparr>pos := pos s + length out\<rparr>))"

definition seek :: "nat \<Rightarrow> BytesIO \<Rightarrow> error + BytesIO" where
  "seek p s = (if p > PY_SSIZE_T_MAX then Inl OverflowError else Inr (s\<lparr>pos := p\<rparr>))"

subsection \<open>The zlib module\<close>

text \<open>
  zlib is a library outside this repository, so the script is modelled over any
  implementation of the part of its interface that is used: \<open>decompressobj\<close> is a fresh
  decompression object (its state, of type \<open>'z\<close>), \<open>decompress\<close> feeds it input and
  returns the output produced together with the object's new state, \<open>flush\<close> returns the
  output still pending; both may raise \<open>zlib.error\<close> with a message. \<open>compress\<close> is
  \<open>zlib.compress\<close>, which the script never calls; it is here to state the round trip.
\<close>

record 'z zlib =
  decompressobj :: 'z
  decompress :: "'z \<Rightarrow> bytes \<Rightarrow> string + (bytes \<times> 'z)"
  flush :: "'z \<Rightarrow> string + bytes"
  compress :: "bytes \<Rightarrow> bytes"

subsection \<open>FILES and PUPEntry\<close>

definition FILES :: "nat \<rightharpoonup> string" where
  "FILES = map_of [
    (0x1, ''emc_ipl.slb''),
    (0x2, ''eap_kbl.slb''),
    (0x3, ''torus2_fw.slb''),
    (0x4, ''sam_ipl.slb''),
    (0x5, ''coreos.slb''),
    (0x6, ''system_exfat.img''),
    (0x7, ''eap_kernel.slb''),
    (0x8, ''eap_vsh_fat16.img''),
    (0x9, ''preinst_fat32.img''),
    (0xB, ''preinst2_fat32.img''),
    (0xC, ''system_ex_exfat.img''),
    (0xD, ''emc_ipl.slb''),
    (0xE, ''eap_kbl.slb''),
    (0x20, ''emc_ipl.slb''),
    (0x21, ''eap_kbl.slb''),
    (0x22, ''torus2_fw.slb''),
    (0x23, ''sam_ipl.slb''),
    (0x24, ''emc_ipl.slb''),
    (0x25, ''eap_kbl.slb''),
    (0x26, ''sam_ipl.slb''),
    (0x27, ''sam_ipl.slb''),
    (0x28, ''emc_ipl.slb''),
    (0x2A, ''emc_ipl.slb''),
    (0x2B, ''eap_kbl.slb''),
    (0x2C, ''emc_ipl.slb''),
    (0x2D, ''sam_ipl.slb''),
    (0x2E, ''emc_ipl.slb''),
    (0x30, ''torus2_fw.bin''),
    (0x31, ''sam_ipl.slb''),
    (0x32, ''sam_ipl.slb''),
    (0x101, ''eula.xml''),
    (0x200, ''orbis_swu.elf''),
    (0x202, ''orbis_swu.self''),
    (0xD01, ''bd_firm.slb''),
    (0xD02, ''sata_bridge_fw.slb''),
    (0xD09, ''cp_fw_kernel.slb'')]"

record PUPEntry =
  flags :: nat
  offset :: nat
  file_size :: nat
  memory_size :: nat
  data :: bytes

definition PUPEntry_init :: "nat \<Rightarrow> nat \<Rightarrow> nat \<Rightarrow> nat \<Rightarrow> PUPEntry" where
  "PUPEntry_init fl off fsz msz =
     \<lparr>flags = fl, offset = off, file_size = fsz, memory_size = msz, data = []\<rparr>"

text \<open>
  The format specification \<open>04X\<close>: uppercase hexadecimal, padded with zeros on the left
  to a width of at least 4 (a longer number keeps all its digits).
\<close>

definition hex_digit :: "nat \<Rightarrow> char" where
  "hex_digit d = ''0123456789ABCDEF'' ! d"

function to_hex :: "nat \<Rightarrow> string" where
  "to_hex n = (if n < 16 then [hex_digit n] else to_hex (n div 16) @ [hex_digit (n mod 16)])"
  by pat_completeness auto
termination
  by (relation "measure id") auto

declare to_hex.simps [simp del]

definition zero_pad :: "nat \<Rightarrow> string \<Rightarrow> string" where
  "zero_pad width s = replicate (width - length s) CHR ''0'' @ s"

definition format_04X :: "nat \<Rightarrow> string" where
  "format_04X n = zero_pad 4 (to_hex n)"

definition file_name :: "PUPEntry \<Rightarrow> string" where
  "file_name e =
     (case FILES (drop_bit 20 (flags e)) of
        Some name \<Rightarrow> name
      | None \<Rightarrow> ''unknown_'' @ format_04X (drop_bit 20 (flags e)))"

definition compressed :: "PUPEntry \<Rightarrow> bool" where
  "compressed e = (flags e AND 0x8 \<noteq> 0)"

text \<open>
  \<open>process_bytes\<close> (lines 81-88). The assignment to \<open>self.data\<close> comes last, so an
  exception of zlib leaves the entry as it was: the error result carries no entry.
\<close>

definition process_bytes :: "'z zlib \<Rightarrow> PUPEntry \<Rightarrow> bytes \<Rightarrow> error + PUPEntry" where
  "process_bytes z e d =
     (if compressed e then
        (case decompress z (decompressobj z) d of
           Inl msg \<Rightarrow> Inl (zlib_error msg)
         | Inr (inflated, st) \<Rightarrow>
             (case flush z st of
                Inl msg \<Rightarrow> Inl (zlib_error msg)
              | Inr rest \<Rightarrow> Inr (e\<lparr>data := inflated @ rest\<rparr>)))
      else Inr (e\<lparr>data := d\<rparr>))"

subsection \<open>PUP\<close>

record PUP =
  path :: string
  entries :: "PUPEntry list"

definition PUP_init :: "string \<Rightarrow> PUP" where
  "PUP_init p = \<lparr>path = p, entries = []\<rparr>"

text \<open>
  A method that may raise returns the exception, if any (\<open>None\<close> for a normal return),
  together with the objects it has mutated, in the state they have at that moment.

  The first loop of \<open>parse\<close> (lines 105-108): \<open>entries_count\<close> times, read 32 bytes
  from the stream, unpack them and append the new entry to \<open>self.entries\<close>.
\<close>

fun read_entries :: "nat \<Rightarrow> BytesIO \<Rightarrow> PUP \<Rightarrow> error option \<times> BytesIO \<times> PUP" where
  "read_entries 0 stream self = (None, stream, self)"
| "read_entries (Suc k) stream self =
     (case read (calcsize PUP_ENTRY_FORMAT) stream of
        Inl err \<Rightarrow> (Some err, stream, self)
      | Inr (entry_data, stream') \<Rightarrow>
          (case unpack PUP_ENTRY_FORMAT entry_data of
             Inl err \<Rightarrow> (Some err, stream', self)
           | Inr [fl, off, fsz, msz] \<Rightarrow>
               read_entries k stream'
                 (self\<lparr>entries := entries self @ [PUPEntry_init fl off fsz msz]\<rparr>)
           | Inr _ \<Rightarrow> (Some TypeError, stream', self)))"

text \<open>
  The second loop (lines 109-111): for every entry of \<open>self.entries\<close>, seek to its
  offset, read \<open>file_size\<close> bytes and hand them to \<open>process_bytes\<close>. The entries
  are mutated in place, so after an exception the entries before the failing one carry
  their data and the others are untouched.
\<close>

fun load_payloads ::
  "'z zlib \<Rightarrow> BytesIO \<Rightarrow> PUPEntry list \<Rightarrow> error option \<times> BytesIO \<times> PUPEntry list" where
  "load_payloads z stream [] = (None, stream, [])"
| "load_payloads z stream (entry # rest) =
     (case seek (offset entry) stream of
        Inl err \<Rightarrow> (Some err, stream, entry # rest)
      | Inr stream1 \<Rightarrow>
          (case read (file_size entry) stream1 of
             Inl err \<Rightarrow> (Some err, stream1, entry # rest)
           | Inr (raw, stream2) \<Rightarrow>
               (case process_bytes z entry raw of
                  Inl err \<Rightarrow> (Some err, stream2, entry # rest)
                | Inr entry' \<Rightarrow>
                    (case load_payloads z stream2 rest of
                       (r, stream3, rest') \<Rightarrow> (r, stream3, entry' # rest')))))"

text \<open>
  \<open>parse\<close> (lines 95-111). \<open>contents\<close> is what \<open>f.read()\<close> returned at line 97, the
  whole file; opening and reading the file belong to the file system and are not
  modelled. The fifteen header fields are bound as in the source; only \<open>magic\<close> and
  \<open>entries_count\<close> are used.
\<close>

definition parse :: "'z zlib \<Rightarrow> bytes \<Rightarrow> PUP \<Rightarrow> error option \<times> PUP" where
  "parse z contents self =
     (let stream = BytesIO_init contents in
      case read (calcsize PUP_HEADER_FORMAT) stream of
        Inl err \<Rightarrow> (Some err, self)
      | Inr (header, stream) \<Rightarrow>
          (case unpack PUP_HEADER_FORMAT header of
             Inl err \<Rightarrow> (Some err, self)
           | Inr [magic, version, mode, endian, hflags, content, product, padding,
                  header_size, hash_size, hfile_size, padding2, entries_count,
                  flags2, unk1C] \<Rightarrow>
               if magic \<noteq> 0x1D3D154F then (Some (RuntimeError ''Invalid PUP file''), self)
               else
                 (case read_entries entries_count stream self of
                    (Some err, _, self') \<Rightarrow> (Some err, self')
                  | (None, stream', self') \<Rightarrow>
                      (case load_payloads z stream' (entries self') of
                         (r, _, es) \<Rightarrow> (r, self'\<lparr>entries := es\<rparr>)))
           | Inr _ \<Rightarrow> (Some ValueError, self)))"

text \<open>
  \<open>PUP.extract\<close> (lines 113-120; \<open>extract\<close> alone is a keyword of Isabelle). The
  output directory is the map from the names of its files to their contents (empty
  when \<open>mkdir\<close> has just created it); opening a file with mode \<open>'wb'\<close> creates or
  truncates it, and \<open>write\<close> stores the entry's data. Failures of the file system
  itself are not modelled.
\<close>

fun write_entries :: "PUPEntry list \<Rightarrow> (string \<rightharpoonup> bytes) \<Rightarrow> (string \<rightharpoonup> bytes)" where
  "write_entries [] out_dir = out_dir"
| "write_entries (entry # rest) out_dir =
     (if file_name entry = [] then write_entries rest out_dir
      else write_entries rest (out_dir(file_name entry \<mapsto> data entry)))"

definition PUP_extract :: "PUP \<Rightarrow> (string \<rightharpoonup> bytes) \<Rightarrow> (string \<rightharpoonup> bytes)" where
  "PUP_extract self out_dir = write_entries (entries self) out_dir"

subsection \<open>An instance of the zlib interface: stored blocks\<close>

text \<open>
  For the examples, a library to put in place of the parameter: zlib streams (RFC 1950)
  whose deflate blocks are all stored blocks (RFC 1951, section 3.2.4), which is what
  \<open>zlib.compress(data, 0)\<close> writes. As in zlib, a stream that ends early is not an
  error for a decompression object: it returns what it has decoded. Unlike zlib, the
  instance refuses Huffman-coded blocks.
\<close>

fun adler32_loop :: "bytes \<Rightarrow> nat \<Rightarrow> nat \<Rightarrow> nat" where
  "adler32_loop [] a b = b * 65536 + a"
| "adler32_loop (x # xs) a b =
     (let a' = (a + unat x) mod 65521 in adler32_loop xs a' ((b + a') mod 65521))"

definition adler32 :: "bytes \<Rightarrow> nat" where
  "adler32 d = adler32_loop d 1 0"

definition be32 :: "nat \<Rightarrow> bytes" where
  "be32 n = rev (le_bytes 4 n)"

definition le16 :: "nat \<Rightarrow> bytes" where
  "le16 n = le_bytes 2 n"

function stored_blocks :: "bytes \<Rightarrow> bytes" where
  "stored_blocks d =
     (if length d \<le> 65535 then 1 # le16 (length d) @ le16 (65535 - length d) @ d
      else 0 # le16 65535 @ le16 0 @ take 65535 d @ stored_blocks (drop 65535 d))"
  by pat_completeness auto
termination
  by (relation "measure length") auto

declare stored_blocks.simps [simp del]

definition stored_compress :: "bytes \<Rightarrow> bytes" where
  "stored_compress d = [0x78, 0x01] @ stored_blocks d @ be32 (adler32 d)"

text \<open>
  The blocks of the input, appended to \<open>out\<close>; with the output comes what follows the
  final block, or \<open>None\<close> when the input ended before the final block was complete.
\<close>

function inflate_stored :: "bytes \<Rightarrow> bytes \<Rightarrow> string + (bytes \<times> bytes option)" where
  "inflate_stored [] out = Inr (out, None)"
| "inflate_stored (h # r) out =
     (if drop_bit 1 (unat h) mod 4 \<noteq> 0
      then Inl ''Error -3 while decompressing data: invalid block type''
      else if length r < 4 then Inr (out, None)
      else
        let len = le_uint (take 2 r); nlen = le_uint (take 2 (drop 2 r)) in
        if len + nlen \<noteq> 65535
        then Inl ''Error -3 while decompressing data: invalid stored block lengths''
        else
          let body = take len (drop 4 r) in
          if length body < len then Inr (out @ body, None)
          else if unat h mod 2 = 1 then Inr (out @ body, Some (drop (4 + len) r))
          else inflate_stored (drop (4 + len) r) (out @ body))"
  by pat_completeness auto
termination
  by (relation "measure (\<lambda>(inp, out). length inp)") auto

declare inflate_stored.simps [simp del]

definition stored_decompress :: "unit \<Rightarrow> bytes \<Rightarrow> string + (bytes \<times> unit)" where
  "stored_decompress st d =
     (if length d < 2 then Inr ([], ())
      else
        let cmf = unat (d ! 0); flg = unat (d ! 1) in
        if (cmf * 256 + flg) mod 31 \<noteq> 0
        then Inl ''Error -3 while decompressing data: incorrect header check''
        else if cmf mod 16 \<noteq> 8
        then Inl ''Error -3 while decompressing data: unknown compression method''
        else if cmf div 16 > 7
        then Inl ''Error -3 while decompressing data: invalid window size''
        else if flg div 32 mod 2 = 1
        then Inl ''Error 2 while decompressing data''
        else
          (case inflate_stored (drop 2 d) [] of
             Inl msg \<Rightarrow> Inl msg
           | Inr (out, None) \<Rightarrow> Inr (out, ())
           | Inr (out, Some trailer) \<Rightarrow>
               if length trailer < 4 then Inr (out, ())
               else if take 4 trailer \<noteq> be32 (adler32 out)
               then Inl ''Error -3 while decompressing data: incorrect data check''
               else Inr (out, ())))"

definition stored_zlib :: "unit zlib" where
  "stored_zlib =
     \<lparr>decompressobj = (), decompress = stored_decompress,
      flush = (\<lambda>st. Inr []), compress = stored_compress\<rparr>"

subsection \<open>The layout of a container, in the words of the specification\<close>

text \<open>
  The specification describes the file by positions: the magic is the first four bytes,
  \<open>entries_count\<close> the two bytes at offset 24 of the 32-byte header, record \<open>i\<close> of
  the entry table the 32 bytes at \<open>32 + 32 * i\<close>, made of four 8-byte little-endian
  integers, and an entry's payload the \<open>file_size\<close> bytes at its \<open>offset\<close>. These
  definitions follow that description; the theorems relate \<open>parse\<close> to them.
\<close>

definition header_magic :: "bytes \<Rightarrow> nat" where
  "header_magic contents = le_uint (take 4 contents)"

definition header_entries_count :: "bytes \<Rightarrow> nat" where
  "header_entries_count contents = le_uint (take 2 (drop 24 contents))"

definition entry_record :: "bytes \<Rightarrow> nat \<Rightarrow> bytes" where
  "entry_record contents i = take 32 (drop (32 + 32 * i) contents)"

definition entry_of_record :: "bytes \<Rightarrow> PUPEntry" where
  "entry_of_record r =
     PUPEntry_init (le_uint (take 8 r)) (le_uint (take 8 (drop 8 r)))
       (le_uint (take 8 (drop 16 r))) (le_uint (take 8 (drop 24 r)))"

definition payload_slice :: "bytes \<Rightarrow> PUPEntry \<Rightarrow> bytes" where
  "payload_slice contents e = take (file_size e) (drop (offset e) contents)"

subsection \<open>Containers for the examples\<close>

text \<open>
  A header with the magic, \<open>n\<close> entries and zero in every other field, and the record
  of one entry.
\<close>

definition pup_header :: "nat \<Rightarrow> bytes" where
  "pup_header n = le_bytes 4 0x1D3D154F @ replicate 20 0 @ le_bytes 2 n @ replicate 6 0"

definition pup_entry :: "nat \<Rightarrow> nat \<Rightarrow> nat \<Rightarrow> nat \<Rightarrow> bytes" where
  "pup_entry fl off fsz msz = le_bytes 8 fl @ le_bytes 8 off @ le_bytes 8 fsz @ le_bytes 8 msz"

text \<open>The bytes of \<open>hello\<close>.\<close>

definition hello :: bytes where
  "hello = [0x68, 0x65, 0x6C, 0x6C, 0x6F]"

text \<open>One uncompressed entry with identifier 5 and the payload \<open>DE AD BE EF\<close>.\<close>

definition pup_coreos :: bytes where
  "pup_coreos = pup_header 1 @ pup_entry 0x500000 64 4 4 @ [0xDE, 0xAD, 0xBE, 0xEF]"

text \<open>The same entry with the compression bit, over a zlib stream of \<open>hello\<close>.\<close>

definition pup_hello :: bytes where
  "pup_hello = pup_header 1 @ pup_entry 0x500008 64 16 5 @ stored_compress hello"

text \<open>An entry of four bytes at offset 64 in a file of 66 bytes.\<close>

definition pup_truncated :: bytes where
  "pup_truncated = pup_header 1 @ pup_entry 0x500000 64 4 4 @ [0xDE, 0xAD]"

text \<open>An entry of eight bytes at offset 96 in a file of 64 bytes.\<close>

definition pup_beyond :: bytes where
  "pup_beyond = pup_header 1 @ pup_entry 0x500000 96 8 8"

text \<open>A file of 64 bytes whose first byte is not that of the magic.\<close>

definition pup_bad_magic :: bytes where
  "pup_bad_magic = 0x50 # tl (pup_header 1) @ pup_entry 0x500000 64 0 0"

subsection \<open>The round trip of the library\<close>

text \<open>
  What zlib promises for a byte sequence \<open>x\<close>: a fresh decompression object that is fed
  \<open>compress(x)\<close> raises nothing and yields \<open>x\<close>, the output of \<open>flush\<close> included.
\<close>

definition zlib_roundtrip :: "'z zlib \<Rightarrow> bytes \<Rightarrow> bool" where
  "zlib_roundtrip z x =
     (case decompress z (decompressobj z) (compress z x) of
        Inl msg \<Rightarrow> False
      | Inr (inflated, st) \<Rightarrow>
          (case flush z st of Inl msg \<Rightarrow> False | Inr rest \<Rightarrow> inflated @ rest = x))"

text \<open>
  Three entries with data: identifiers 1 and 0xD both resolve to \<open>emc_ipl.slb\<close>,
  identifier 5 to \<open>coreos.slb\<close>.
\<close>

definition pup_collide :: PUP where
  "pup_collide =
     \<lparr>path = ''PS4UPDATE.PUP'',
      entries = [(PUPEntry_init 0x100000 0 0 0)\<lparr>data := [1]\<rparr>,
                 (PUPEntry_init 0x500000 0 0 0)\<lparr>data := [2]\<rparr>,
                 (PUPEntry_init 0xD00000 0 0 0)\<lparr>data := [3]\<rparr>]\<rparr>"

section \<open>Properties\<close>

subsection \<open>Unpacking and the two loops of parse\<close>

lemma field_sizes_header: "field_sizes PUP_HEADER_FORMAT = [4,1,1,1,1,1,1,2,2,2,4,4,2,2,4]"
  by (simp add: field_sizes_def PUP_HEADER_FORMAT_def code_size_def)

lemma field_sizes_entry: "field_sizes PUP_ENTRY_FORMAT = [8,8,8,8]"
  by (simp add: field_sizes_def PUP_ENTRY_FORMAT_def code_size_def)

lemma calcsize_header: "calcsize PUP_HEADER_FORMAT = 32"
  by (simp add: calcsize_def field_sizes_header)

lemma calcsize_entry: "calcsize PUP_ENTRY_FORMAT = 32"
  by (simp add: calcsize_def field_sizes_entry)

lemma unpack_entry_short: "length b \<noteq> 32 \<Longrightarrow> unpack PUP_ENTRY_FORMAT b = Inl (struct_error 32)"
  by (simp add: unpack_def calcsize_entry)

lemma unpack_entry: "length b = 32 \<Longrightarrow> unpack PUP_ENTRY_FORMAT b =
   Inr [le_uint (take 8 b), le_uint (take 8 (drop 8 b)), le_uint (take 8 (drop 16 b)), le_uint (take 8 (drop 24 b))]"
  by (simp add: unpack_def calcsize_entry field_sizes_entry)

lemma unpack_header_short: "length b \<noteq> 32 \<Longrightarrow> unpack PUP_HEADER_FORMAT b = Inl (struct_error 32)"
  by (simp add: unpack_def calcsize_header)

lemma unpack_header: "length b = 32 \<Longrightarrow> unpack PUP_HEADER_FORMAT b =
   Inr [le_uint (take 4 b), le_uint (take 1 (drop 4 b)), le_uint (take 1 (drop 5 b)),
        le_uint (take 1 (drop 6 b)), le_uint (take 1 (drop 7 b)), le_uint (take 1 (drop 8 b)),
        le_uint (take 1 (drop 9 b)), le_uint (take 2 (drop 10 b)), le_uint (take 2 (drop 12 b)),
        le_uint (take 2 (drop 14 b)), le_uint (take 4 (drop 16 b)), le_uint (take 4 (drop 20 b)),
        le_uint (take 2 (drop 24 b)), le_uint (take 2 (drop 26 b)), le_uint (take 4 (drop 28 b))]"
  by (simp add: unpack_def calcsize_header field_sizes_header)

lemma read_header: "read 32 (BytesIO_init c) = Inr (take 32 c, \<lparr>buf = c, pos = min 32 (length c)\<rparr>)"
  by (simp add: read_def BytesIO_init_def PY_SSIZE_T_MAX_def min_def)

lemma parse_short: "length c < 32 \<Longrightarrow> parse z c self = (Some (struct_error 32), self)"
  by (simp add: parse_def calcsize_header read_header unpack_header_short)

lemma parse_long: "length c \<ge> 32 \<Longrightarrow> parse z c self =
  (if le_uint (take 4 c) \<noteq> 0x1D3D154F then (Some (RuntimeError ''Invalid PUP file''), self)
   else (case read_entries (le_uint (take 2 (drop 24 c))) \<lparr>buf = c, pos = 32\<rparr> self of
           (Some err, _, self') \<Rightarrow> (Some err, self')
         | (None, stream', self') \<Rightarrow>
             (case load_payloads z stream' (entries self') of
                (r, _, es) \<Rightarrow> (r, self'\<lparr>entries := es\<rparr>))))"
  by (simp add: parse_def calcsize_header read_header unpack_header min_def drop_take)

lemma read_entries_complete:
  "pos stream + 32 * k \<le> length (buf stream) \<Longrightarrow>
   read_entries k stream self =
     (None, stream\<lparr>pos := pos stream + 32 * k\<rparr>,
      self\<lparr>entries := entries self @
         map (\<lambda>i. entry_of_record (take 32 (drop (pos stream + 32 * i) (buf stream)))) [0..<k]\<rparr>)"
proof (induction k arbitrary: stream self)
  case 0
  then show ?case by simp
next
  case (Suc k)
  let ?r = "take 32 (drop (pos stream) (buf stream))"
  let ?s = "stream\<lparr>pos := pos stream + 32\<rparr>"
  from Suc.prems have len: "length ?r = 32" by simp
  have rd: "read 32 stream = Inr (?r, ?s)"
    using Suc.prems by (simp add: read_def PY_SSIZE_T_MAX_def min_def)
  have step: "read_entries (Suc k) stream self =
      read_entries k ?s (self\<lparr>entries := entries self @ [entry_of_record ?r]\<rparr>)"
    by (simp add: calcsize_entry rd unpack_entry [OF len] entry_of_record_def)
  have "pos ?s + 32 * k \<le> length (buf ?s)" using Suc.prems by simp
  note ih = Suc.IH [OF this]
  let ?g = "\<lambda>i. entry_of_record (take 32 (drop (pos stream + 32 * i) (buf stream)))"
  have "map ?g [Suc 0..<Suc k] = map (?g \<circ> Suc) [0..<k]"
    by (simp only: map_Suc_upt [symmetric] map_map)
  then have shift: "map ?g [0..<Suc k] = ?g 0 # map (\<lambda>i. ?g (Suc i)) [0..<k]"
    by (simp add: upt_rec [of 0 "Suc k"] comp_def del: upt_Suc)
  show ?case
    unfolding step ih shift by (simp add: add.assoc)
qed

lemma read_entries_truncated:
  "pos stream \<le> length (buf stream) \<Longrightarrow> length (buf stream) < pos stream + 32 * k \<Longrightarrow>
   fst (read_entries k stream self) = Some (struct_error 32)"
proof (induction k arbitrary: stream self)
  case 0
  then show ?case by simp
next
  case (Suc k)
  let ?r = "take 32 (drop (pos stream) (buf stream))"
  have rd: "read 32 stream = Inr (?r, stream\<lparr>pos := pos stream + length ?r\<rparr>)"
    by (simp add: read_def PY_SSIZE_T_MAX_def Let_def)
  show ?case
  proof (cases "length ?r = 32")
    case True
    then have p: "pos stream + 32 \<le> length (buf stream)" by simp
    have "length (buf (stream\<lparr>pos := pos stream + 32\<rparr>)) < pos (stream\<lparr>pos := pos stream + 32\<rparr>) + 32 * k"
      using Suc.prems by simp
    from Suc.IH [OF _ this] p show ?thesis
      by (simp add: calcsize_entry rd unpack_entry [OF True] True)
  next
    case False
    then show ?thesis
      by (simp add: calcsize_entry rd unpack_entry_short)
  qed
qed


lemma seek_read:
  "offset e \<le> PY_SSIZE_T_MAX \<Longrightarrow> file_size e \<le> PY_SSIZE_T_MAX \<Longrightarrow>
   \<exists>s1 s2. seek (offset e) stream = Inr s1 \<and> buf s1 = buf stream \<and>
     read (file_size e) s1 = Inr (payload_slice (buf stream) e, s2) \<and> buf s2 = buf stream"
  by (simp add: seek_def read_def payload_slice_def Let_def)

lemma load_payloads_Cons_ok:
  assumes "load_payloads z stream (e # es) = (None, stream', es')"
  shows "\<exists>e' s2 rest'.
    offset e \<le> PY_SSIZE_T_MAX \<and> file_size e \<le> PY_SSIZE_T_MAX \<and>
    process_bytes z e (payload_slice (buf stream) e) = Inr e' \<and>
    buf s2 = buf stream \<and> load_payloads z s2 es = (None, stream', rest') \<and> es' = e' # rest'"
proof -
  from assms obtain s1 where s1: "seek (offset e) stream = Inr s1"
    by (auto split: sum.splits)
  then have o: "offset e \<le> PY_SSIZE_T_MAX" and b1: "buf s1 = buf stream" and p1: "pos s1 = offset e"
    by (auto simp: seek_def split: if_splits)
  from assms s1 obtain raw s2 where s2: "read (file_size e) s1 = Inr (raw, s2)"
    by (auto split: sum.splits)
  then have f: "file_size e \<le> PY_SSIZE_T_MAX" and b2: "buf s2 = buf stream"
    and raw: "raw = payload_slice (buf stream) e"
    using b1 p1 by (auto simp: read_def payload_slice_def Let_def split: if_splits)
  from assms s1 s2 obtain e' where e': "process_bytes z e raw = Inr e'"
    by (auto split: sum.splits)
  from assms s1 s2 e' obtain rest' where "load_payloads z s2 es = (None, stream', rest')" "es' = e' # rest'"
    by (auto split: prod.splits)
  with o f b2 raw e' show ?thesis by blast
qed

lemma load_payloads_ok:
  "load_payloads z stream es = (None, stream', es') \<Longrightarrow>
   list_all2 (\<lambda>e e'. offset e \<le> PY_SSIZE_T_MAX \<and> file_size e \<le> PY_SSIZE_T_MAX \<and>
                process_bytes z e (payload_slice (buf stream) e) = Inr e') es es'"
proof (induction es arbitrary: stream es')
  case Nil
  then show ?case by simp
next
  case (Cons e es)
  from load_payloads_Cons_ok [OF Cons.prems] obtain e' s2 rest' where
    a: "offset e \<le> PY_SSIZE_T_MAX" "file_size e \<le> PY_SSIZE_T_MAX"
       "process_bytes z e (payload_slice (buf stream) e) = Inr e'"
    and b: "buf s2 = buf stream" and r: "load_payloads z s2 es = (None, stream', rest')"
    and es': "es' = e' # rest'"
    by blast
  from Cons.IH [OF r] b a es' show ?case by simp
qed

lemma load_payloads_total:
  "list_all2 (\<lambda>e e'. offset e \<le> PY_SSIZE_T_MAX \<and> file_size e \<le> PY_SSIZE_T_MAX \<and>
                process_bytes z e (payload_slice (buf stream) e) = Inr e') es es' \<Longrightarrow>
   \<exists>stream'. load_payloads z stream es = (None, stream', es') \<and> buf stream' = buf stream"
proof (induction es arbitrary: stream es')
  case Nil
  then show ?case by simp
next
  case (Cons e es)
  from Cons.prems obtain e' rest' where es': "es' = e' # rest'"
    and a: "offset e \<le> PY_SSIZE_T_MAX" "file_size e \<le> PY_SSIZE_T_MAX"
           "process_bytes z e (payload_slice (buf stream) e) = Inr e'"
    and r: "list_all2 (\<lambda>e e'. offset e \<le> PY_SSIZE_T_MAX \<and> file_size e \<le> PY_SSIZE_T_MAX \<and>
                process_bytes z e (payload_slice (buf stream) e) = Inr e') es rest'"
    by (auto simp: list_all2_Cons1)
  from seek_read [OF a(1,2)] obtain s1 s2 where
    s: "seek (offset e) stream = Inr s1" "read (file_size e) s1 = Inr (payload_slice (buf stream) e, s2)"
       "buf s2 = buf stream" by blast
  from r s(3) have "list_all2 (\<lambda>e e'. offset e \<le> PY_SSIZE_T_MAX \<and> file_size e \<le> PY_SSIZE_T_MAX \<and>
                process_bytes z e (payload_slice (buf s2) e) = Inr e') es rest'" by simp
  from Cons.IH [OF this] obtain stream' where
    "load_payloads z s2 es = (None, stream', rest')" "buf stream' = buf s2" by blast
  with s a es' show ?case by simp
qed


lemma process_bytes_frame:
  "process_bytes z e d = Inr e' \<Longrightarrow> e' = e\<lparr>data := data e'\<rparr>"
  by (auto simp: process_bytes_def split: if_splits sum.splits prod.splits)

lemma process_bytes_raw:
  "\<not> compressed e \<Longrightarrow> process_bytes z e d = Inr (e\<lparr>data := d\<rparr>)"
  by (simp add: process_bytes_def)

lemma parse_bad_magic:
  "32 \<le> length c \<Longrightarrow> header_magic c \<noteq> 0x1D3D154F \<Longrightarrow>
   parse z c self = (Some (RuntimeError ''Invalid PUP file''), self)"
  by (simp add: parse_long header_magic_def)

lemma parse_table:
  assumes "32 + 32 * header_entries_count c \<le> length c" "header_magic c = 0x1D3D154F"
  shows "parse z c self =
    (case load_payloads z \<lparr>buf = c, pos = 32 + 32 * header_entries_count c\<rparr>
            (entries self @ map (\<lambda>i. entry_of_record (entry_record c i))
                              [0..<header_entries_count c]) of
       (r, _, es) \<Rightarrow> (r, self\<lparr>entries := es\<rparr>))"
proof -
  from assms(1) have len: "32 \<le> length c" by simp
  have "pos \<lparr>buf = c, pos = 32\<rparr> + 32 * header_entries_count c \<le> length (buf \<lparr>buf = c, pos = 32\<rparr>)"
    using assms(1) by simp
  from read_entries_complete [OF this, of self] show ?thesis
    using assms(2)
    by (simp add: parse_long [OF len] header_magic_def header_entries_count_def
                  entry_record_def split: prod.splits)
qed

lemma parse_None_table:
  assumes "fst (parse z c self) = None"
  shows "32 + 32 * header_entries_count c \<le> length c \<and> header_magic c = 0x1D3D154F"
proof -
  have len: "32 \<le> length c"
  proof (rule ccontr)
    assume "\<not> 32 \<le> length c"
    then have "length c < 32" by simp
    from parse_short [OF this, of z self] assms show False by simp
  qed
  have magic: "header_magic c = 0x1D3D154F"
  proof (rule ccontr)
    assume "header_magic c \<noteq> 0x1D3D154F"
    from parse_bad_magic [OF len this, of z self] assms show False by simp
  qed
  have "32 + 32 * header_entries_count c \<le> length c"
  proof (rule ccontr)
    assume "\<not> 32 + 32 * header_entries_count c \<le> length c"
    then have "length (buf \<lparr>buf = c, pos = 32\<rparr>) < pos \<lparr>buf = c, pos = 32\<rparr> + 32 * header_entries_count c"
      by simp
    from read_entries_truncated [OF _ this, of self] len
    have "fst (read_entries (header_entries_count c) \<lparr>buf = c, pos = 32\<rparr> self) = Some (struct_error 32)"
      by simp
    with assms magic show False
      by (simp add: parse_long [OF len] header_magic_def header_entries_count_def
               split: prod.splits option.splits)
  qed
  with magic show ?thesis by simp
qed



lemma le_bytes_numeral [simp]:
  "le_bytes (numeral k) n = of_nat (n mod 256) # le_bytes (pred_numeral k) (n div 256)"
  unfolding numeral_eq_Suc [of k] by (rule le_bytes.simps)

lemma length_le_bytes [simp]: "length (le_bytes k n) = k"
  by (induction k arbitrary: n) simp_all

subsection \<open>The header\<close>

text \<open>
  C7. A buffer shorter than the fixed header, whose size is \<open>calcsize(PUP_HEADER_FORMAT)\<close>,
  makes \<open>parse\<close> fail: \<open>stream.read\<close> returns fewer than 32 bytes and
  \<open>struct.unpack\<close> raises \<open>struct.error\<close> ("unpack requires a buffer of 32 bytes"),
  the script's error for a header that is too short. Nothing has been stored in the
  object by then.
\<close>

theorem parse_header_too_short:
  "length contents < calcsize PUP_HEADER_FORMAT \<Longrightarrow>
   parse z contents self = (Some (struct_error 32), self)"
  by (simp add: calcsize_header parse_short)

theorem parse_header_too_short_witness:
  "length (take 31 pup_coreos) < calcsize PUP_HEADER_FORMAT \<and>
   parse stored_zlib (take 31 pup_coreos) (PUP_init ''PS4UPDATE.PUP'') =
     (Some (struct_error 32), PUP_init ''PS4UPDATE.PUP'')"
proof -
  have h: "length (take 31 pup_coreos) < calcsize PUP_HEADER_FORMAT"
    by (simp add: calcsize_header)
  from parse_header_too_short [OF h] h show ?thesis by simp
qed

text \<open>
  C6. A buffer at least as long as the header whose magic, the little-endian integer of
  its first four bytes, is not \<open>0x1D3D154F\<close> makes \<open>parse\<close> fail with
  \<open>RuntimeError('Invalid PUP file')\<close>, the script's error for an invalid magic,
  whatever the other bytes of the buffer are.
\<close>

theorem parse_invalid_magic:
  "calcsize PUP_HEADER_FORMAT \<le> length contents \<Longrightarrow>
   header_magic contents \<noteq> 0x1D3D154F \<Longrightarrow>
   fst (parse z contents self) = Some (RuntimeError ''Invalid PUP file'')"
  by (simp add: calcsize_header parse_bad_magic)

theorem parse_invalid_magic_witness:
  "calcsize PUP_HEADER_FORMAT \<le> length pup_bad_magic \<and>
   header_magic pup_bad_magic \<noteq> 0x1D3D154F \<and>
   fst (parse stored_zlib pup_bad_magic (PUP_init ''PS4UPDATE.PUP'')) =
     Some (RuntimeError ''Invalid PUP file'')"
proof -
  have h1: "calcsize PUP_HEADER_FORMAT \<le> length pup_bad_magic"
    by (simp add: calcsize_header pup_bad_magic_def pup_header_def pup_entry_def)
  have h2: "header_magic pup_bad_magic \<noteq> 0x1D3D154F"
    by (simp add: header_magic_def pup_bad_magic_def pup_header_def)
  from parse_invalid_magic [OF h1 h2] h1 h2 show ?thesis by simp
qed

text \<open>
  C10. When the magic check fails, \<open>parse\<close> raises before the first loop: no entry
  descriptor has been decoded and no payload read, so the object is as it was, and the
  entry list of a freshly constructed \<open>PUP\<close> is still empty.
\<close>

theorem parse_invalid_magic_atomic:
  "calcsize PUP_HEADER_FORMAT \<le> length contents \<Longrightarrow>
   header_magic contents \<noteq> 0x1D3D154F \<Longrightarrow>
   snd (parse z contents self) = self \<and>
   entries (snd (parse z contents (PUP_init p))) = []"
  by (simp add: calcsize_header parse_bad_magic PUP_init_def)

theorem parse_invalid_magic_atomic_witness:
  "calcsize PUP_HEADER_FORMAT \<le> length pup_bad_magic \<and>
   header_magic pup_bad_magic \<noteq> 0x1D3D154F \<and>
   snd (parse stored_zlib pup_bad_magic (PUP_init ''PS4UPDATE.PUP'')) =
     PUP_init ''PS4UPDATE.PUP'' \<and>
   entries (snd (parse stored_zlib pup_bad_magic (PUP_init ''PS4UPDATE.PUP''))) = []"
proof -
  have h1: "calcsize PUP_HEADER_FORMAT \<le> length pup_bad_magic"
    by (simp add: calcsize_header pup_bad_magic_def pup_header_def pup_entry_def)
  have h2: "header_magic pup_bad_magic \<noteq> 0x1D3D154F"
    by (simp add: header_magic_def pup_bad_magic_def pup_header_def)
  from parse_invalid_magic_atomic [OF h1 h2] h1 h2 show ?thesis by simp
qed

subsection \<open>Processing a payload\<close>

lemma stored_compress_hello:
  "stored_compress hello =
     [0x78, 1, 1, 5, 0, 0xFA, 0xFF, 0x68, 0x65, 0x6C, 0x6C, 0x6F, 6, 0x2C, 2, 0x15]"
  unfolding stored_compress_def stored_blocks.simps [of hello]
  by (simp add: le16_def be32_def adler32_def hello_def Let_def)

lemma stored_decompress_hello:
  "stored_decompress () (stored_compress hello) = Inr (hello, ())"
  unfolding stored_compress_hello
  by (simp add: stored_decompress_def inflate_stored.simps be32_def adler32_def hello_def Let_def)


text \<open>
  C9. \<open>process_bytes\<close> assigns to \<open>self.data\<close> only: whatever the entry and the
  payload, the entry it leaves has the same \<open>flags\<close>, \<open>offset\<close>, \<open>file_size\<close> and
  \<open>memory_size\<close>, and differs from the old one in \<open>data\<close> at most. (When zlib
  raises, the entry is not touched at all.)
\<close>

theorem process_bytes_frame_fields:
  "process_bytes z e d = Inr e' \<Longrightarrow>
   flags e' = flags e \<and> offset e' = offset e \<and> file_size e' = file_size e \<and>
   memory_size e' = memory_size e \<and> e' = e\<lparr>data := data e'\<rparr>"
proof -
  assume "process_bytes z e d = Inr e'"
  then have eq: "e' = e\<lparr>data := data e'\<rparr>" by (rule process_bytes_frame)
  have "flags (e\<lparr>data := data e'\<rparr>) = flags e" "offset (e\<lparr>data := data e'\<rparr>) = offset e"
    "file_size (e\<lparr>data := data e'\<rparr>) = file_size e"
    "memory_size (e\<lparr>data := data e'\<rparr>) = memory_size e" by simp_all
  with eq show ?thesis by metis
qed

theorem process_bytes_frame_fields_witness:
  "process_bytes stored_zlib (PUPEntry_init 0x500008 64 16 5) (stored_compress hello) =
     Inr \<lparr>flags = 0x500008, offset = 64, file_size = 16, memory_size = 5, data = hello\<rparr> \<and>
   flags \<lparr>flags = 0x500008, offset = 64, file_size = 16, memory_size = 5, data = hello\<rparr> =
     flags (PUPEntry_init 0x500008 64 16 5)"
proof -
  have h: "process_bytes stored_zlib (PUPEntry_init 0x500008 64 16 5) (stored_compress hello) =
     Inr \<lparr>flags = 0x500008, offset = 64, file_size = 16, memory_size = 5, data = hello\<rparr>"
    by (simp add: process_bytes_def compressed_def PUPEntry_init_def stored_zlib_def
                  stored_decompress_hello)
  from process_bytes_frame_fields [OF h] h show ?thesis by simp
qed



text \<open>
  The stored-block instance keeps the promise for every byte sequence: its
  decompression inverts its compression.
\<close>

lemma le_uint_le_bytes: "n < 256 ^ k \<Longrightarrow> le_uint (le_bytes k n) = n"
proof (induction k arbitrary: n)
  case 0
  then show ?case by simp
next
  case (Suc k)
  from Suc.prems have "n div 256 < 256 ^ k"
    by (simp add: div_less_iff_less_mult mult.commute)
  from Suc.IH [OF this] have ih: "le_uint (le_bytes k (n div 256)) = n div 256" .
  have "unat (of_nat (n mod 256) :: byte) = n mod 256"
    by (simp add: unat_of_nat)
  with ih show ?case by simp
qed

lemma le_uint_le16: "n < 65536 \<Longrightarrow> le_uint (le16 n) = n"
  using le_uint_le_bytes [of n 2] by (simp add: le16_def)

lemma length_le16: "length (le16 n) = 2"
  by (simp add: le16_def)

lemma length_be32: "length (be32 n) = 4"
  by (simp add: be32_def)

lemma inflate_stored_blocks:
  "inflate_stored (stored_blocks d @ t) out = Inr (out @ d, Some t)"
proof (induction d arbitrary: out rule: stored_blocks.induct)
  case (1 d)
  show ?case
  proof (cases "length d \<le> 65535")
    case True
    let ?r = "le16 (length d) @ le16 (65535 - length d) @ d @ t"
    have sb: "stored_blocks d @ t = 1 # ?r"
      using True by (subst stored_blocks.simps) simp
    have len: "le_uint (take 2 ?r) = length d"
      using True by (simp add: length_le16 le_uint_le16)
    have nlen: "le_uint (take 2 (drop 2 ?r)) = 65535 - length d"
      by (simp add: length_le16 le_uint_le16)
    have body: "take (length d) (drop 4 ?r) = d" "drop (4 + length d) ?r = t"
      by (simp_all add: length_le16)
    have l4: "\<not> length ?r < 4" by (simp add: length_le16)
    show ?thesis
      unfolding sb
      by (subst inflate_stored.simps) (simp only: Let_def len nlen body l4, use True in simp)
  next
    case False
    let ?d1 = "take 65535 d" and ?d2 = "drop 65535 d"
    let ?r = "le16 65535 @ le16 0 @ ?d1 @ stored_blocks ?d2 @ t"
    have sb: "stored_blocks d @ t = 0 # ?r"
      using False by (subst stored_blocks.simps) simp
    have l1: "length ?d1 = 65535" using False by simp
    have len: "le_uint (take 2 ?r) = 65535"
      by (simp add: length_le16 le_uint_le16)
    have nlen: "le_uint (take 2 (drop 2 ?r)) = 0"
      by (simp add: length_le16 le_uint_le16)
    have body: "take 65535 (drop 4 ?r) = ?d1" "drop (4 + 65535) ?r = stored_blocks ?d2 @ t"
      using l1 by (simp_all add: length_le16)
    have l4: "\<not> length ?r < 4" by (simp add: length_le16)
    from "1.IH" [OF False] have ih:
      "inflate_stored (stored_blocks ?d2 @ t) (out @ ?d1) = Inr ((out @ ?d1) @ ?d2, Some t)" .
    show ?thesis
      unfolding sb
      by (subst inflate_stored.simps) (simp only: Let_def len nlen body l4 ih, use l1 in simp)
  qed
qed

lemma stored_decompress_compress:
  "stored_decompress () (stored_compress x) = Inr (x, ())"
proof -
  let ?t = "be32 (adler32 x)"
  have d2: "drop 2 (stored_compress x) = stored_blocks x @ ?t"
    by (simp add: stored_compress_def)
  have hd: "\<not> length (stored_compress x) < 2" "stored_compress x ! 0 = 0x78"
    "stored_compress x ! Suc 0 = 0x01"
    by (simp_all add: stored_compress_def)
  show ?thesis
    unfolding stored_decompress_def Let_def d2 inflate_stored_blocks
    by (simp add: hd length_be32)
qed

lemma stored_zlib_roundtrip: "zlib_roundtrip stored_zlib x"
  by (simp add: zlib_roundtrip_def stored_zlib_def stored_decompress_compress)



subsection \<open>Writing the files\<close>

lemma FILES_nonempty: "FILES k = Some name \<Longrightarrow> name \<noteq> []"
  by (auto simp: FILES_def split: if_splits)

lemma file_name_nonempty: "file_name e \<noteq> []"
  by (auto simp: file_name_def dest: FILES_nonempty split: option.splits)

lemma write_entries_Cons:
  "write_entries (e # es) d = write_entries es (d(file_name e \<mapsto> data e))"
  by (simp add: file_name_nonempty)

lemma write_entries_other:
  "n \<notin> file_name ` set es \<Longrightarrow> write_entries es d n = d n"
  by (induction es arbitrary: d) (auto simp: file_name_nonempty)

lemma write_entries_snoc:
  "write_entries (es @ [e]) d = (write_entries es d)(file_name e \<mapsto> data e)"
  by (induction es arbitrary: d) (simp_all add: file_name_nonempty)

lemma dom_write_entries: "dom (write_entries es d) = dom d \<union> file_name ` set es"
  by (induction es arbitrary: d) (auto simp: file_name_nonempty)

lemma write_entries_last:
  assumes "i < length es"
    and "\<forall>j. i < j \<and> j < length es \<longrightarrow> file_name (es ! j) \<noteq> file_name (es ! i)"
  shows "write_entries es d (file_name (es ! i)) = Some (data (es ! i))"
proof -
  let ?e = "es ! i"
  from assms(1) have split: "es = take i es @ ?e # drop (Suc i) es"
    by (rule id_take_nth_drop)
  have later: "file_name ?e \<notin> file_name ` set (drop (Suc i) es)"
  proof
    assume "file_name ?e \<in> file_name ` set (drop (Suc i) es)"
    then obtain k where k: "k < length (drop (Suc i) es)"
      and eq: "file_name (drop (Suc i) es ! k) = file_name ?e"
      by (auto simp: in_set_conv_nth)
    from k have "Suc i + k < length es" by simp
    moreover from k eq have "file_name (es ! (Suc i + k)) = file_name ?e" by simp
    ultimately show False using assms(2) by force
  qed
  have app: "\<And>xs ys d. write_entries (xs @ ys) d = write_entries ys (write_entries xs d)"
  proof -
    fix xs ys d show "write_entries (xs @ ys) d = write_entries ys (write_entries xs d)"
      by (induction xs arbitrary: d) (simp_all add: file_name_nonempty)
  qed
  have "write_entries es d (file_name ?e) =
        write_entries (drop (Suc i) es)
          ((write_entries (take i es) d)(file_name ?e \<mapsto> data ?e)) (file_name ?e)"
    by (subst split) (simp add: app file_name_nonempty)
  also have "\<dots> = Some (data ?e)"
    using write_entries_other [OF later] by simp
  finally show ?thesis .
qed

text \<open>
  C8. \<open>extract\<close> writes one file per distinct resolved file name: the names in the
  directory afterwards are those that were there and the names of the entries, every
  entry's name among them (no name is empty, so the test of line 116 never skips an
  entry), and a directory that was empty holds as many files as the entries have
  distinct names. A file whose name several entries share holds the data of the last of
  them in table order; files that no entry names are left alone.
\<close>

theorem extract_last_wins:
  "dom (PUP_extract self out_dir) = dom out_dir \<union> file_name ` set (entries self) \<and>
   (\<forall>e \<in> set (entries self). file_name e \<in> dom (PUP_extract self out_dir)) \<and>
   card (dom (PUP_extract self Map.empty)) = card (file_name ` set (entries self)) \<and>
   (\<forall>i < length (entries self).
      (\<forall>j. i < j \<and> j < length (entries self) \<longrightarrow>
           file_name (entries self ! j) \<noteq> file_name (entries self ! i)) \<longrightarrow>
      PUP_extract self out_dir (file_name (entries self ! i)) = Some (data (entries self ! i))) \<and>
   (\<forall>n. n \<notin> file_name ` set (entries self) \<longrightarrow> PUP_extract self out_dir n = out_dir n)"
  by (simp add: PUP_extract_def dom_write_entries write_entries_last write_entries_other)

lemma file_name_examples:
  "file_name ((PUPEntry_init 0x100000 0 0 0)\<lparr>data := d1\<rparr>) = ''emc_ipl.slb''"
  "file_name ((PUPEntry_init 0x500000 0 0 0)\<lparr>data := d2\<rparr>) = ''coreos.slb''"
  "file_name ((PUPEntry_init 0xD00000 0 0 0)\<lparr>data := d3\<rparr>) = ''emc_ipl.slb''"
  by (simp_all add: file_name_def PUPEntry_init_def FILES_def drop_bit_eq_div)

theorem extract_last_wins_witness:
  "PUP_extract pup_collide Map.empty ''emc_ipl.slb'' = Some [3] \<and>
   PUP_extract pup_collide Map.empty ''coreos.slb'' = Some [2] \<and>
   card (dom (PUP_extract pup_collide Map.empty)) = 2"
proof -
  note t = extract_last_wins [of pup_collide Map.empty]
  have es: "entries pup_collide = [(PUPEntry_init 0x100000 0 0 0)\<lparr>data := [1]\<rparr>,
                 (PUPEntry_init 0x500000 0 0 0)\<lparr>data := [2]\<rparr>,
                 (PUPEntry_init 0xD00000 0 0 0)\<lparr>data := [3]\<rparr>]"
    by (simp add: pup_collide_def)
  have l: "length (entries pup_collide) = 3" by (simp add: es)
  have n: "file_name (entries pup_collide ! 0) = ''emc_ipl.slb''"
    "file_name (entries pup_collide ! 1) = ''coreos.slb''"
    "file_name (entries pup_collide ! 2) = ''emc_ipl.slb''"
    by (simp_all add: es file_name_examples)
  have d: "data (entries pup_collide ! 1) = [2]" "data (entries pup_collide ! 2) = [3]"
    by (simp_all add: es)
  have later1: "\<forall>j. 1 < j \<and> j < length (entries pup_collide) \<longrightarrow>
      file_name (entries pup_collide ! j) \<noteq> file_name (entries pup_collide ! 1)"
  proof (intro allI impI)
    fix j assume "1 < j \<and> j < length (entries pup_collide)"
    then have "j = 2" using l by simp
    then show "file_name (entries pup_collide ! j) \<noteq> file_name (entries pup_collide ! 1)"
      by (simp add: es file_name_examples)
  qed
  have later2: "\<forall>j. 2 < j \<and> j < length (entries pup_collide) \<longrightarrow>
      file_name (entries pup_collide ! j) \<noteq> file_name (entries pup_collide ! 2)"
    using l by auto
  from t later1 l have a: "PUP_extract pup_collide Map.empty (file_name (entries pup_collide ! 1)) =
      Some (data (entries pup_collide ! 1))" by simp
  from t later2 l have b: "PUP_extract pup_collide Map.empty (file_name (entries pup_collide ! 2)) =
      Some (data (entries pup_collide ! 2))" by simp
  from t have "card (dom (PUP_extract pup_collide Map.empty)) =
      card (file_name ` set (entries pup_collide))" by simp
  also have "\<dots> = card {''emc_ipl.slb'', ''coreos.slb''}"
    by (simp add: es file_name_examples insert_commute)
  also have "\<dots> = 2" by simp
  finally show ?thesis using a b by (simp add: es file_name_examples)
qed

subsection \<open>Resolving the file name\<close>











subsection \<open>The entry table and the payloads\<close>

lemma length_payload_slice:
  "length (payload_slice contents e) = min (file_size e) (length contents - offset e)"
  by (simp add: payload_slice_def min.commute)

lemma payload_slice_truncated:
  "length contents < offset e + file_size e \<Longrightarrow>
   payload_slice contents e = drop (offset e) contents \<and>
   (0 < file_size e \<longrightarrow> length (payload_slice contents e) < file_size e)"
  by (auto simp: payload_slice_def)

lemma entry_of_record_fields:
  "flags (entry_of_record r) = le_uint (take 8 r)"
  "offset (entry_of_record r) = le_uint (take 8 (drop 8 r))"
  "file_size (entry_of_record r) = le_uint (take 8 (drop 16 r))"
  "memory_size (entry_of_record r) = le_uint (take 8 (drop 24 r))"
  "data (entry_of_record r) = []"
  by (simp_all add: entry_of_record_def PUPEntry_init_def)

lemma parse_fresh_None:
  assumes "parse z contents (PUP_init p) = (None, self')"
  shows "32 + 32 * header_entries_count contents \<le> length contents"
    and "header_magic contents = 0x1D3D154F"
    and "path self' = p"
    and "list_all2 (\<lambda>e e'. offset e \<le> PY_SSIZE_T_MAX \<and> file_size e \<le> PY_SSIZE_T_MAX \<and>
                process_bytes z e (payload_slice contents e) = Inr e')
           (map (\<lambda>i. entry_of_record (entry_record contents i)) [0..<header_entries_count contents])
           (entries self')"
proof -
  from assms have "fst (parse z contents (PUP_init p)) = None" by simp
  from parse_None_table [OF this]
  show t: "32 + 32 * header_entries_count contents \<le> length contents"
    and m: "header_magic contents = 0x1D3D154F" by simp_all
  let ?es = "map (\<lambda>i. entry_of_record (entry_record contents i)) [0..<header_entries_count contents]"
  let ?s = "\<lparr>buf = contents, pos = 32 + 32 * header_entries_count contents\<rparr>"
  obtain r s' es' where l: "load_payloads z ?s ?es = (r, s', es')"
    by (cases "load_payloads z ?s ?es") auto
  from parse_table [OF t m, of z "PUP_init p"] l assms
  have r: "r = None" and s: "self' = (PUP_init p)\<lparr>entries := es'\<rparr>"
    by (simp_all add: PUP_init_def)
  from s show "path self' = p" by (simp add: PUP_init_def)
  from load_payloads_ok [of z ?s ?es s' es'] l r s
  show "list_all2 (\<lambda>e e'. offset e \<le> PY_SSIZE_T_MAX \<and> file_size e \<le> PY_SSIZE_T_MAX \<and>
                process_bytes z e (payload_slice contents e) = Inr e') ?es (entries self')"
    by simp
qed

lemma parse_fresh_total:
  assumes t: "32 + 32 * header_entries_count contents \<le> length contents"
    and m: "header_magic contents = 0x1D3D154F"
    and ok: "\<forall>i < header_entries_count contents.
        offset (entry_of_record (entry_record contents i)) \<le> PY_SSIZE_T_MAX \<and>
        file_size (entry_of_record (entry_record contents i)) \<le> PY_SSIZE_T_MAX \<and>
        process_bytes z (entry_of_record (entry_record contents i))
          (payload_slice contents (entry_of_record (entry_record contents i))) = Inr (f i)"
  shows "parse z contents (PUP_init p) =
           (None, \<lparr>path = p, entries = map f [0..<header_entries_count contents]\<rparr>)"
proof -
  let ?n = "header_entries_count contents"
  let ?es = "map (\<lambda>i. entry_of_record (entry_record contents i)) [0..<?n]"
  let ?s = "\<lparr>buf = contents, pos = 32 + 32 * ?n\<rparr>"
  have "list_all2 (\<lambda>e e'. offset e \<le> PY_SSIZE_T_MAX \<and> file_size e \<le> PY_SSIZE_T_MAX \<and>
                process_bytes z e (payload_slice (buf ?s) e) = Inr e') ?es (map f [0..<?n])"
    using ok by (simp add: list_all2_conv_all_nth)
  from load_payloads_total [OF this] obtain s' where
    "load_payloads z ?s ?es = (None, s', map f [0..<?n])" by blast
  with parse_table [OF t m, of z "PUP_init p"] show ?thesis
    by (simp add: PUP_init_def)
qed

lemma pup_hello_bytes:
  "pup_hello = pup_header 1 @ pup_entry 0x500008 64 16 5 @
     [0x78, 1, 1, 5, 0, 0xFA, 0xFF, 0x68, 0x65, 0x6C, 0x6C, 0x6F, 6, 0x2C, 2, 0x15]"
  by (simp add: pup_hello_def stored_compress_hello)

lemma parse_pup_hello:
  "parse stored_zlib pup_hello (PUP_init ''PS4UPDATE.PUP'') =
     (None, \<lparr>path = ''PS4UPDATE.PUP'',
             entries = [\<lparr>flags = 0x500008, offset = 64, file_size = 16, memory_size = 5,
                         data = hello\<rparr>]\<rparr>)"
proof -
  have cnt: "header_entries_count pup_hello = 1"
    by (simp add: header_entries_count_def pup_hello_bytes pup_header_def)
  have t: "32 + 32 * header_entries_count pup_hello \<le> length pup_hello"
    by (simp add: cnt) (simp add: pup_hello_bytes pup_header_def pup_entry_def)
  have m: "header_magic pup_hello = 0x1D3D154F"
    by (simp add: header_magic_def pup_hello_bytes pup_header_def)
  have rec: "entry_of_record (entry_record pup_hello 0) = PUPEntry_init 0x500008 64 16 5"
    by (simp add: entry_of_record_def entry_record_def pup_hello_bytes pup_header_def pup_entry_def)
  have sl: "payload_slice pup_hello (PUPEntry_init 0x500008 64 16 5) = stored_compress hello"
    by (simp add: payload_slice_def PUPEntry_init_def pup_hello_bytes pup_header_def
                  pup_entry_def stored_compress_hello)
  have pb: "process_bytes stored_zlib (PUPEntry_init 0x500008 64 16 5) (stored_compress hello) =
     Inr \<lparr>flags = 0x500008, offset = 64, file_size = 16, memory_size = 5, data = hello\<rparr>"
    by (simp add: process_bytes_def compressed_def PUPEntry_init_def stored_zlib_def
                  stored_decompress_hello)
  have ok: "\<forall>i < header_entries_count pup_hello.
        offset (entry_of_record (entry_record pup_hello i)) \<le> PY_SSIZE_T_MAX \<and>
        file_size (entry_of_record (entry_record pup_hello i)) \<le> PY_SSIZE_T_MAX \<and>
        process_bytes stored_zlib (entry_of_record (entry_record pup_hello i))
          (payload_slice pup_hello (entry_of_record (entry_record pup_hello i))) =
        Inr ((\<lambda>i. \<lparr>flags = 0x500008, offset = 64, file_size = 16, memory_size = 5,
                     data = hello\<rparr>) i)"
    by (simp add: cnt rec sl pb) (simp add: PUPEntry_init_def PY_SSIZE_T_MAX_def)
  from parse_fresh_total [OF t m ok] show ?thesis by (simp add: cnt)
qed

text \<open>
  C1, as the code has it. When \<open>parse\<close> returns normally on a fresh \<open>PUP\<close>, the
  object holds exactly \<open>entries_count\<close> entries in table order. Entry \<open>i\<close> has the
  four fields decoded from the complete 32-byte record at \<open>32 + 32 * i\<close>, four 8-byte
  little-endian unsigned integers \<open>flags\<close>, \<open>offset\<close>, \<open>file_size\<close>,
  \<open>memory_size\<close>, and it is what \<open>process_bytes\<close> makes of its raw payload. The
  raw payload is the part of the range \<open>offset .. offset + file_size\<close> that lies inside
  the buffer: \<open>file_size\<close> bytes when the range ends within the buffer, and otherwise
  only the bytes that exist. For an entry without the compression bit the data are that
  raw payload.
\<close>

theorem parse_entries_in_table_order:
  assumes "parse z contents (PUP_init p) = (None, self')"
  shows "length (entries self') = header_entries_count contents \<and>
    (\<forall>i < header_entries_count contents.
       length (entry_record contents i) = 32 \<and>
       flags (entries self' ! i) = le_uint (take 8 (entry_record contents i)) \<and>
       offset (entries self' ! i) = le_uint (take 8 (drop 8 (entry_record contents i))) \<and>
       file_size (entries self' ! i) = le_uint (take 8 (drop 16 (entry_record contents i))) \<and>
       memory_size (entries self' ! i) = le_uint (take 8 (drop 24 (entry_record contents i))) \<and>
       process_bytes z (entry_of_record (entry_record contents i))
         (payload_slice contents (entries self' ! i)) = Inr (entries self' ! i) \<and>
       (\<not> compressed (entries self' ! i) \<longrightarrow>
          data (entries self' ! i) = payload_slice contents (entries self' ! i)) \<and>
       length (payload_slice contents (entries self' ! i)) =
         min (file_size (entries self' ! i)) (length contents - offset (entries self' ! i)) \<and>
       (offset (entries self' ! i) + file_size (entries self' ! i) \<le> length contents \<longrightarrow>
          length (payload_slice contents (entries self' ! i)) = file_size (entries self' ! i)))"
proof -
  let ?n = "header_entries_count contents"
  let ?E = "\<lambda>i. entry_of_record (entry_record contents i)"
  note tab = parse_fresh_None(1) [OF assms]
  note all = parse_fresh_None(4) [OF assms]
  from all have len: "length (entries self') = ?n"
    by (simp add: list_all2_conv_all_nth)
  have each: "length (entry_record contents i) = 32 \<and>
       flags (entries self' ! i) = le_uint (take 8 (entry_record contents i)) \<and>
       offset (entries self' ! i) = le_uint (take 8 (drop 8 (entry_record contents i))) \<and>
       file_size (entries self' ! i) = le_uint (take 8 (drop 16 (entry_record contents i))) \<and>
       memory_size (entries self' ! i) = le_uint (take 8 (drop 24 (entry_record contents i))) \<and>
       process_bytes z (?E i) (payload_slice contents (entries self' ! i)) = Inr (entries self' ! i) \<and>
       (\<not> compressed (entries self' ! i) \<longrightarrow>
          data (entries self' ! i) = payload_slice contents (entries self' ! i)) \<and>
       length (payload_slice contents (entries self' ! i)) =
         min (file_size (entries self' ! i)) (length contents - offset (entries self' ! i)) \<and>
       (offset (entries self' ! i) + file_size (entries self' ! i) \<le> length contents \<longrightarrow>
          length (payload_slice contents (entries self' ! i)) = file_size (entries self' ! i))"
    if i: "i < ?n" for i
  proof -
    let ?e' = "entries self' ! i"
    from all i have pb: "process_bytes z (?E i) (payload_slice contents (?E i)) = Inr ?e'"
      by (simp add: list_all2_conv_all_nth)
    from process_bytes_frame [OF pb] have fr: "?e' = (?E i)\<lparr>data := data ?e'\<rparr>" .
    have fl: "flags ?e' = flags (?E i)" and off: "offset ?e' = offset (?E i)"
      and fs: "file_size ?e' = file_size (?E i)" and ms: "memory_size ?e' = memory_size (?E i)"
      by (subst fr, simp)+
    have sl: "payload_slice contents ?e' = payload_slice contents (?E i)"
      by (simp add: payload_slice_def off fs)
    from i tab have "32 + 32 * i + 32 \<le> length contents" by simp
    then have r: "length (entry_record contents i) = 32"
      by (simp add: entry_record_def)
    have raw: "data ?e' = payload_slice contents ?e'" if "\<not> compressed ?e'"
    proof -
      from that fl have "\<not> compressed (?E i)" by (simp add: compressed_def)
      from process_bytes_raw [OF this, of z "payload_slice contents (?E i)"] pb
      have "?e' = (?E i)\<lparr>data := payload_slice contents (?E i)\<rparr>" by simp
      then have "data ?e' = payload_slice contents (?E i)"
        by (metis PUPEntry.select_convs(5) PUPEntry.surjective PUPEntry.update_convs(5))
      with sl show ?thesis by simp
    qed
    from r fl off fs ms pb sl raw show ?thesis
      by (simp add: entry_of_record_fields length_payload_slice)
  qed
  from len each show ?thesis by blast
qed

theorem parse_entries_in_table_order_witness:
  "parse stored_zlib pup_hello (PUP_init ''PS4UPDATE.PUP'') =
     (None, \<lparr>path = ''PS4UPDATE.PUP'',
             entries = [\<lparr>flags = 0x500008, offset = 64, file_size = 16, memory_size = 5,
                         data = hello\<rparr>]\<rparr>) \<and>
   length (entries \<lparr>path = ''PS4UPDATE.PUP'',
             entries = [\<lparr>flags = 0x500008, offset = 64, file_size = 16, memory_size = 5,
                         data = hello\<rparr>]\<rparr>) = header_entries_count pup_hello"
proof -
  note h = parse_pup_hello
  from parse_entries_in_table_order [OF h] h show ?thesis by blast
qed

lemma parse_pup_truncated:
  "parse stored_zlib pup_truncated (PUP_init ''PS4UPDATE.PUP'') =
     (None, \<lparr>path = ''PS4UPDATE.PUP'',
             entries = [\<lparr>flags = 0x500000, offset = 64, file_size = 4, memory_size = 4,
                         data = [0xDE, 0xAD]\<rparr>]\<rparr>)"
proof -
  have cnt: "header_entries_count pup_truncated = 1"
    by (simp add: header_entries_count_def pup_truncated_def pup_header_def)
  have t: "32 + 32 * header_entries_count pup_truncated \<le> length pup_truncated"
    by (simp add: cnt) (simp add: pup_truncated_def pup_header_def pup_entry_def)
  have m: "header_magic pup_truncated = 0x1D3D154F"
    by (simp add: header_magic_def pup_truncated_def pup_header_def)
  have rec: "entry_of_record (entry_record pup_truncated 0) = PUPEntry_init 0x500000 64 4 4"
    by (simp add: entry_of_record_def entry_record_def pup_truncated_def pup_header_def
                  pup_entry_def)
  have sl: "payload_slice pup_truncated (PUPEntry_init 0x500000 64 4 4) = [0xDE, 0xAD]"
    by (simp add: payload_slice_def PUPEntry_init_def pup_truncated_def pup_header_def
                  pup_entry_def)
  have pb: "process_bytes stored_zlib (PUPEntry_init 0x500000 64 4 4) [0xDE, 0xAD] =
     Inr \<lparr>flags = 0x500000, offset = 64, file_size = 4, memory_size = 4, data = [0xDE, 0xAD]\<rparr>"
    by (simp add: process_bytes_def compressed_def PUPEntry_init_def)
  have ok: "\<forall>i < header_entries_count pup_truncated.
        offset (entry_of_record (entry_record pup_truncated i)) \<le> PY_SSIZE_T_MAX \<and>
        file_size (entry_of_record (entry_record pup_truncated i)) \<le> PY_SSIZE_T_MAX \<and>
        process_bytes stored_zlib (entry_of_record (entry_record pup_truncated i))
          (payload_slice pup_truncated (entry_of_record (entry_record pup_truncated i))) =
        Inr ((\<lambda>i. \<lparr>flags = 0x500000, offset = 64, file_size = 4, memory_size = 4,
                     data = [0xDE, 0xAD]\<rparr>) i)"
    by (simp add: cnt rec sl pb) (simp add: PUPEntry_init_def PY_SSIZE_T_MAX_def)
  from parse_fresh_total [OF t m ok] show ?thesis by (simp add: cnt)
qed

text \<open>
  C1 as stated asks for the \<open>file_size\<close> bytes at \<open>offset\<close> whenever \<open>parse\<close>
  succeeds. In a file of 66 bytes with one uncompressed entry of four bytes at offset
  64, \<open>parse\<close> succeeds and the entry receives two bytes.
\<close>

theorem parse_payload_counterexample:
  "parse stored_zlib pup_truncated (PUP_init ''PS4UPDATE.PUP'') =
     (None, \<lparr>path = ''PS4UPDATE.PUP'',
             entries = [\<lparr>flags = 0x500000, offset = 64, file_size = 4, memory_size = 4,
                         data = [0xDE, 0xAD]\<rparr>]\<rparr>) \<and>
   \<not> compressed \<lparr>flags = 0x500000, offset = 64, file_size = 4, memory_size = 4,
                  data = [0xDE, 0xAD]\<rparr> \<and>
   length (data \<lparr>flags = 0x500000, offset = 64, file_size = 4, memory_size = 4,
                 data = [0xDE, 0xAD]\<rparr>) \<noteq>
   file_size \<lparr>flags = 0x500000, offset = 64, file_size = 4, memory_size = 4,
              data = [0xDE, 0xAD]\<rparr>"
  by (simp add: parse_pup_truncated compressed_def)

text \<open>
  C2, as the code has it. \<open>parse\<close> never compares \<open>offset + file_size\<close> with the
  length of the buffer. With a valid magic and a complete entry table, if every offset
  and file size fits \<open>Py_ssize_t\<close> and \<open>process_bytes\<close> raises nothing on the
  payloads, \<open>parse\<close> returns normally with the processed entries; and an entry whose
  range runs over the end of the buffer gets as raw payload the bytes from its offset to
  the end of the buffer (none when the offset is at or past the end), fewer than a
  nonzero \<open>file_size\<close>.
\<close>

theorem parse_truncated_payload:
  assumes "32 + 32 * header_entries_count contents \<le> length contents"
    and "header_magic contents = 0x1D3D154F"
    and "\<forall>i < header_entries_count contents.
        offset (entry_of_record (entry_record contents i)) \<le> PY_SSIZE_T_MAX \<and>
        file_size (entry_of_record (entry_record contents i)) \<le> PY_SSIZE_T_MAX \<and>
        process_bytes z (entry_of_record (entry_record contents i))
          (payload_slice contents (entry_of_record (entry_record contents i))) = Inr (f i)"
  shows "parse z contents (PUP_init p) =
           (None, \<lparr>path = p, entries = map f [0..<header_entries_count contents]\<rparr>) \<and>
    (\<forall>i < header_entries_count contents.
       length contents < offset (entry_of_record (entry_record contents i)) +
                         file_size (entry_of_record (entry_record contents i)) \<longrightarrow>
       payload_slice contents (entry_of_record (entry_record contents i)) =
         drop (offset (entry_of_record (entry_record contents i))) contents \<and>
       (0 < file_size (entry_of_record (entry_record contents i)) \<longrightarrow>
          length (payload_slice contents (entry_of_record (entry_record contents i))) <
          file_size (entry_of_record (entry_record contents i))))"
  using parse_fresh_total [OF assms] payload_slice_truncated by blast

theorem parse_truncated_payload_witness:
  "32 + 32 * header_entries_count pup_truncated \<le> length pup_truncated \<and>
   header_magic pup_truncated = 0x1D3D154F \<and>
   length pup_truncated < offset (entry_of_record (entry_record pup_truncated 0)) +
                          file_size (entry_of_record (entry_record pup_truncated 0)) \<and>
   parse stored_zlib pup_truncated (PUP_init ''PS4UPDATE.PUP'') =
     (None, \<lparr>path = ''PS4UPDATE.PUP'',
             entries = [\<lparr>flags = 0x500000, offset = 64, file_size = 4, memory_size = 4,
                         data = [0xDE, 0xAD]\<rparr>]\<rparr>) \<and>
   payload_slice pup_truncated (entry_of_record (entry_record pup_truncated 0)) =
     drop 64 pup_truncated \<and>
   length (payload_slice pup_truncated (entry_of_record (entry_record pup_truncated 0))) < 4"
proof -
  have cnt: "header_entries_count pup_truncated = 1"
    by (simp add: header_entries_count_def pup_truncated_def pup_header_def)
  have t: "32 + 32 * header_entries_count pup_truncated \<le> length pup_truncated"
    by (simp add: cnt) (simp add: pup_truncated_def pup_header_def pup_entry_def)
  have m: "header_magic pup_truncated = 0x1D3D154F"
    by (simp add: header_magic_def pup_truncated_def pup_header_def)
  have rec: "entry_of_record (entry_record pup_truncated 0) = PUPEntry_init 0x500000 64 4 4"
    by (simp add: entry_of_record_def entry_record_def pup_truncated_def pup_header_def
                  pup_entry_def)
  have sl: "payload_slice pup_truncated (PUPEntry_init 0x500000 64 4 4) = [0xDE, 0xAD]"
    by (simp add: payload_slice_def PUPEntry_init_def pup_truncated_def pup_header_def
                  pup_entry_def)
  have pb: "process_bytes stored_zlib (PUPEntry_init 0x500000 64 4 4) [0xDE, 0xAD] =
     Inr \<lparr>flags = 0x500000, offset = 64, file_size = 4, memory_size = 4, data = [0xDE, 0xAD]\<rparr>"
    by (simp add: process_bytes_def compressed_def PUPEntry_init_def)
  have ok: "\<forall>i < header_entries_count pup_truncated.
        offset (entry_of_record (entry_record pup_truncated i)) \<le> PY_SSIZE_T_MAX \<and>
        file_size (entry_of_record (entry_record pup_truncated i)) \<le> PY_SSIZE_T_MAX \<and>
        process_bytes stored_zlib (entry_of_record (entry_record pup_truncated i))
          (payload_slice pup_truncated (entry_of_record (entry_record pup_truncated i))) =
        Inr ((\<lambda>i. \<lparr>flags = 0x500000, offset = 64, file_size = 4, memory_size = 4,
                     data = [0xDE, 0xAD]\<rparr>) i)"
    by (simp add: cnt rec sl pb) (simp add: PUPEntry_init_def PY_SSIZE_T_MAX_def)
  have beyond: "length pup_truncated < offset (entry_of_record (entry_record pup_truncated 0)) +
                          file_size (entry_of_record (entry_record pup_truncated 0))"
    by (simp add: rec) (simp add: PUPEntry_init_def pup_truncated_def pup_header_def pup_entry_def)
  have o: "offset (entry_of_record (entry_record pup_truncated 0)) = 64"
    "file_size (entry_of_record (entry_record pup_truncated 0)) = 4"
    by (simp_all add: rec PUPEntry_init_def)
  from parse_truncated_payload [OF t m ok, of "''PS4UPDATE.PUP''"] t m beyond
  show ?thesis by (simp add: cnt o)
qed

text \<open>
  C2 as stated asks for an error. In a file of 64 bytes with one entry of eight bytes at
  offset 96, \<open>parse\<close> returns normally and the entry's data are empty.
\<close>

theorem parse_no_bounds_check_counterexample:
  "length pup_beyond < 96 + 8 \<and>
   parse stored_zlib pup_beyond (PUP_init ''PS4UPDATE.PUP'') =
     (None, \<lparr>path = ''PS4UPDATE.PUP'',
             entries = [\<lparr>flags = 0x500000, offset = 96, file_size = 8, memory_size = 8,
                         data = []\<rparr>]\<rparr>)"
proof -
  have cnt: "header_entries_count pup_beyond = 1"
    by (simp add: header_entries_count_def pup_beyond_def pup_header_def)
  have t: "32 + 32 * header_entries_count pup_beyond \<le> length pup_beyond"
    by (simp add: cnt) (simp add: pup_beyond_def pup_header_def pup_entry_def)
  have m: "header_magic pup_beyond = 0x1D3D154F"
    by (simp add: header_magic_def pup_beyond_def pup_header_def)
  have rec: "entry_of_record (entry_record pup_beyond 0) = PUPEntry_init 0x500000 96 8 8"
    by (simp add: entry_of_record_def entry_record_def pup_beyond_def pup_header_def
                  pup_entry_def)
  have sl: "payload_slice pup_beyond (PUPEntry_init 0x500000 96 8 8) = []"
    by (simp add: payload_slice_def PUPEntry_init_def pup_beyond_def pup_header_def
                  pup_entry_def)
  have pb: "process_bytes stored_zlib (PUPEntry_init 0x500000 96 8 8) [] =
     Inr \<lparr>flags = 0x500000, offset = 96, file_size = 8, memory_size = 8, data = []\<rparr>"
    by (simp add: process_bytes_def compressed_def PUPEntry_init_def)
  have ok: "\<forall>i < header_entries_count pup_beyond.
        offset (entry_of_record (entry_record pup_beyond i)) \<le> PY_SSIZE_T_MAX \<and>
        file_size (entry_of_record (entry_record pup_beyond i)) \<le> PY_SSIZE_T_MAX \<and>
        process_bytes stored_zlib (entry_of_record (entry_record pup_beyond i))
          (payload_slice pup_beyond (entry_of_record (entry_record pup_beyond i))) =
        Inr ((\<lambda>i. \<lparr>flags = 0x500000, offset = 96, file_size = 8, memory_size = 8,
                     data = []\<rparr>) i)"
    by (simp add: cnt rec sl pb) (simp add: PUPEntry_init_def PY_SSIZE_T_MAX_def)
  have l: "length pup_beyond < 96 + 8"
    by (simp add: pup_beyond_def pup_header_def pup_entry_def)
  from parse_fresh_total [OF t m ok] l show ?thesis by (simp add: cnt)
qed

end
